theory Spec2Isabelle
  imports Complex_Main "HOL-Library.Word"
begin

section \<open>JavaScript values\<close>

text \<open>
  The emulator is JavaScript. Registers and memory cells hold JavaScript values: numbers,
  or \<open>undefined\<close> where an array slot was never written. Numbers are modelled as exact
  rationals (the rounding and the infinities of IEEE doubles and the negative zero are not
  modelled); \<open>NaN\<close> is what arithmetic on \<open>undefined\<close> yields.
\<close>

datatype jsval = Num rat | NaN | Undefined

text \<open>The arithmetic operators \<open>+ - * / %\<close> on these values.\<close>

fun js_add :: "jsval \<Rightarrow> jsval \<Rightarrow> jsval" where
  "js_add (Num a) (Num b) = Num (a + b)"
| "js_add _ _ = NaN"

fun js_sub :: "jsval \<Rightarrow> jsval \<Rightarrow> jsval" where
  "js_sub (Num a) (Num b) = Num (a - b)"
| "js_sub _ _ = NaN"

fun js_mul :: "jsval \<Rightarrow> jsval \<Rightarrow> jsval" where
  "js_mul (Num a) (Num b) = Num (a * b)"
| "js_mul _ _ = NaN"

text \<open>
  \<open>alu\<close> tests the divisor against 0 before it divides, so the zero branch of \<open>js_div\<close>
  (an infinity or NaN in JavaScript) is never taken by the emulator.
\<close>

fun js_div :: "jsval \<Rightarrow> jsval \<Rightarrow> jsval" where
  "js_div (Num a) (Num b) = (if b = 0 then NaN else Num (a / b))"
| "js_div _ _ = NaN"

definition trunc :: "rat \<Rightarrow> int" where
  "trunc q = (if 0 \<le> q then \<lfloor>q\<rfloor> else \<lceil>q\<rceil>)"

text \<open>The remainder \<open>%\<close> truncates the quotient towards zero: its sign is the dividend's.\<close>

fun js_mod :: "jsval \<Rightarrow> jsval \<Rightarrow> jsval" where
  "js_mod (Num a) (Num b) = (if b = 0 then NaN else Num (a - b * of_int (trunc (a / b))))"
| "js_mod _ _ = NaN"

text \<open>
  The bitwise operators convert their operands to 32-bit integers (ToInt32: truncate,
  then wrap modulo \<open>2 ^ 32\<close>; \<open>NaN\<close> and \<open>undefined\<close> become 0) and give back the
  signed reading of the 32-bit result.
\<close>

fun ToInt32 :: "jsval \<Rightarrow> 32 word" where
  "ToInt32 (Num q) = word_of_int (trunc q)"
| "ToInt32 NaN = 0"
| "ToInt32 Undefined = 0"

definition from_int32 :: "32 word \<Rightarrow> jsval" where
  "from_int32 w = Num (of_int (sint w))"

definition js_and :: "jsval \<Rightarrow> jsval \<Rightarrow> jsval" where
  "js_and a b = from_int32 (and (ToInt32 a) (ToInt32 b))"

definition js_or :: "jsval \<Rightarrow> jsval \<Rightarrow> jsval" where
  "js_or a b = from_int32 (or (ToInt32 a) (ToInt32 b))"

definition js_xor :: "jsval \<Rightarrow> jsval \<Rightarrow> jsval" where
  "js_xor a b = from_int32 (xor (ToInt32 a) (ToInt32 b))"

definition js_not :: "jsval \<Rightarrow> jsval" where
  "js_not a = from_int32 (not (ToInt32 a))"

text \<open>\<open>a >> n\<close>, the sign-propagating right shift.\<close>

definition js_shr :: "jsval \<Rightarrow> nat \<Rightarrow> jsval" where
  "js_shr a n = from_int32 (signed_drop_bit n (ToInt32 a))"

text \<open>Strict equality \<open>===\<close>: \<open>NaN\<close> is equal to nothing, itself included.\<close>

fun strict_eq :: "jsval \<Rightarrow> jsval \<Rightarrow> bool" where
  "strict_eq NaN _ = False"
| "strict_eq _ NaN = False"
| "strict_eq a b = (a = b)"

text \<open>
  A JavaScript array is an object: a finite map from property keys to values. Reading a
  key that is absent gives \<open>undefined\<close>, and assigning to any key, in range or not,
  defines it. The key of \<open>a[k]\<close> is the string of \<open>k\<close>, which is different for different
  values of \<open>jsval\<close>, so the values themselves serve as keys.
\<close>

type_synonym jsarray = "jsval \<rightharpoonup> jsval"

definition js_get :: "jsarray \<Rightarrow> jsval \<Rightarrow> jsval" where
  "js_get a k = (case a k of None \<Rightarrow> Undefined | Some v \<Rightarrow> v)"

text \<open>\<open>new Array(size).fill(v)\<close>: the indices \<open>0 .. size - 1\<close> hold \<open>v\<close>.\<close>

definition Array_fill :: "nat \<Rightarrow> jsval \<Rightarrow> jsarray" where
  "Array_fill sz v =
     (\<lambda>k. case k of
        Num q \<Rightarrow> if of_int \<lfloor>q\<rfloor> = q \<and> 0 \<le> q \<and> q < of_nat sz then Some v else None
      | NaN \<Rightarrow> None
      | Undefined \<Rightarrow> None)"

section \<open>ram.js\<close>

text \<open>The methods \<open>write\<close> and \<open>read\<close> of the class \<open>RAM\<close> are \<open>RAM_write\<close> and \<open>RAM_read\<close>.\<close>

record RAM =
  mem :: jsarray

definition new_RAM :: "nat \<Rightarrow> RAM" where
  "new_RAM sz = \<lparr>mem = Array_fill sz (Num 0)\<rparr>"

definition RAM_write :: "jsval \<Rightarrow> jsval \<Rightarrow> RAM \<Rightarrow> RAM" where
  "RAM_write MAR MDR r = r\<lparr>mem := (mem r)(MAR \<mapsto> MDR)\<rparr>"

definition RAM_read :: "jsval \<Rightarrow> RAM \<Rightarrow> jsval" where
  "RAM_read MAR r = js_get (mem r) MAR"

section \<open>cpu.js\<close>

subsection \<open>Constants\<close>

text \<open>
  The opcode constants of the source share their names with the handler methods; here
  the constants carry the prefix \<open>op_\<close> and the methods keep the names.
\<close>

definition op_HLT :: jsval where "op_HLT = Num 1"
definition op_ADD :: jsval where "op_ADD = Num 179"
definition op_AND :: jsval where "op_AND = Num 179"
definition op_CALL :: jsval where "op_CALL = Num 72"
definition op_CMP :: jsval where "op_CMP = Num 160"
definition op_DEC :: jsval where "op_DEC = Num 121"
definition op_DIV :: jsval where "op_DIV = Num 171"
definition op_INC :: jsval where "op_INC = Num 120"
definition op_MOD :: jsval where "op_MOD = Num 172"
definition op_MUL :: jsval where "op_MUL = Num 170"
definition op_NOT :: jsval where "op_NOT = Num 112"
definition op_NOP :: jsval where "op_NOP = Num 0"
definition op_LDI :: jsval where "op_LDI = Num 153"
definition op_OR :: jsval where "op_OR = Num 177"
definition op_PRN :: jsval where "op_PRN = Num 67"
definition op_PUSH :: jsval where "op_PUSH = Num 77"
definition op_POP :: jsval where "op_POP = Num 76"
definition op_RET :: jsval where "op_RET = Num 9"
definition op_SUB :: jsval where "op_SUB = Num 169"
definition op_XOR :: jsval where "op_XOR = Num 178"

definition SP :: jsval where "SP = Num 7"
definition FL_EQ :: jsval where "FL_EQ = Num 1"
definition FL_GT :: jsval where "FL_GT = Num 2"
definition FL_LT :: jsval where "FL_LT = Num 4"

subsection \<open>The processor state\<close>

text \<open>
  The fields of a \<open>CPU\<close> object. \<open>reg\<close> is the array of general-purpose registers;
  \<open>PC\<close>, \<open>IR\<close> and \<open>FL\<close> are the named properties \<open>reg.PC\<close>, \<open>reg.IR\<close> and \<open>reg.FL\<close>.
  \<open>clock\<close> is \<open>this.clock\<close>: the id of the interval installed by the last \<open>startClock\<close>,
  \<open>undefined\<close> (\<open>None\<close>) before the first. \<open>timers\<close> and \<open>timer_count\<close> are the
  host's side of \<open>setInterval\<close> and \<open>clearInterval\<close>: the ids of the active intervals
  whose callback is this processor's \<open>tick\<close>, oldest first, and the number of ids handed
  out so far.
  \<open>console_log\<close> and \<open>console_error\<close> collect what the emulator prints: a logged value,
  and for an error line its text and the value appended to it, if any.
\<close>

record CPU =
  ram :: RAM
  reg :: jsarray
  PC :: jsval
  IR :: jsval
  FL :: jsval
  clock :: "nat option"
  timers :: "nat list"
  timer_count :: nat
  console_log :: "jsval list"
  console_error :: "(string \<times> jsval option) list"

text \<open>
  The entries of the branch table are the handler methods; \<open>this_ADD\<close> stands for the
  method \<open>this.ADD\<close>.
\<close>

datatype handler =
  this_HLT | this_ADD | this_AND | this_CALL | this_CMP | this_DEC | this_DIV
| this_INC | this_MOD | this_MUL | this_NOT | this_NOP | this_LDI | this_OR
| this_PRN | this_PUSH | this_POP | this_RET | this_SUB | this_XOR

text \<open>
  \<open>setupBranchTable\<close> assigns the entries in this order; \<open>this.branchTable\<close> is assigned
  once, by the constructor, and never written again.
\<close>

definition branchTable :: "jsval \<rightharpoonup> handler" where
  "branchTable =
     [op_HLT \<mapsto> this_HLT, op_ADD \<mapsto> this_ADD, op_AND \<mapsto> this_AND,
      op_CALL \<mapsto> this_CALL, op_CMP \<mapsto> this_CMP, op_DEC \<mapsto> this_DEC,
      op_DIV \<mapsto> this_DIV, op_INC \<mapsto> this_INC, op_MOD \<mapsto> this_MOD,
      op_MUL \<mapsto> this_MUL, op_NOT \<mapsto> this_NOT, op_NOP \<mapsto> this_NOP,
      op_LDI \<mapsto> this_LDI, op_OR \<mapsto> this_OR, op_PRN \<mapsto> this_PRN,
      op_PUSH \<mapsto> this_PUSH, op_POP \<mapsto> this_POP, op_RET \<mapsto> this_RET,
      op_SUB \<mapsto> this_SUB, op_XOR \<mapsto> this_XOR]"

definition constructor :: "RAM \<Rightarrow> CPU" where
  "constructor r =
     \<lparr>ram = r, reg = (Array_fill 8 (Num 0))(SP \<mapsto> Num 244),
      PC = Num 0, IR = Num 0, FL = Num 0, clock = None, timers = [], timer_count = 0,
      console_log = [], console_error = []\<rparr>"

definition poke :: "jsval \<Rightarrow> jsval \<Rightarrow> CPU \<Rightarrow> CPU" where
  "poke address val s = s\<lparr>ram := RAM_write address val (ram s)\<rparr>"

text \<open>
  \<open>setInterval\<close> makes a new interval on every call and returns its id, a fresh one.
  \<open>clearInterval\<close> cancels the interval with the given id and no other; given
  \<open>undefined\<close>, or an id that is not active, it does nothing.
\<close>

definition setInterval :: "CPU \<Rightarrow> nat \<times> CPU" where
  "setInterval s =
     (timer_count s,
      s\<lparr>timers := timers s @ [timer_count s], timer_count := Suc (timer_count s)\<rparr>)"

definition clearInterval :: "nat option \<Rightarrow> CPU \<Rightarrow> CPU" where
  "clearInterval h s = s\<lparr>timers := filter (\<lambda>j. Some j \<noteq> h) (timers s)\<rparr>"

definition startClock :: "CPU \<Rightarrow> CPU" where
  "startClock s = (let (h, s1) = setInterval s in s1\<lparr>clock := Some h\<rparr>)"

definition stopClock :: "CPU \<Rightarrow> CPU" where
  "stopClock s = clearInterval (clock s) s"

definition setFlag :: "jsval \<Rightarrow> bool \<Rightarrow> CPU \<Rightarrow> CPU" where
  "setFlag flag val s =
     (if val then s\<lparr>FL := js_or (FL s) flag\<rparr>
      else s\<lparr>FL := js_and (FL s) (js_not flag)\<rparr>)"

subsection \<open>The ALU\<close>

definition alu :: "string \<Rightarrow> jsval \<Rightarrow> jsval \<Rightarrow> CPU \<Rightarrow> CPU" where
  "alu op regA regB s =
     (let a = js_get (reg s) regA; b = js_get (reg s) regB in
      if op = ''ADD'' then s\<lparr>reg := (reg s)(regA \<mapsto> js_add a b)\<rparr>
      else if op = ''AND'' then s\<lparr>reg := (reg s)(regA \<mapsto> js_and a b)\<rparr>
      else if op = ''OR'' then s\<lparr>reg := (reg s)(regA \<mapsto> js_or a b)\<rparr>
      else if op = ''NOT'' then s\<lparr>reg := (reg s)(regA \<mapsto> js_not a)\<rparr>
      else if op = ''XOR'' then s\<lparr>reg := (reg s)(regA \<mapsto> js_xor a b)\<rparr>
      else if op = ''DEC'' then s\<lparr>reg := (reg s)(regA \<mapsto> js_sub a (Num 1))\<rparr>
      else if op = ''DIV'' then
        (if strict_eq b (Num 0)
         then stopClock (s\<lparr>console_error :=
                console_error s @ [(''2nd param could not be 0'', None)]\<rparr>)
         else s\<lparr>reg := (reg s)(regA \<mapsto> js_div a b)\<rparr>)
      else if op = ''INC'' then s\<lparr>reg := (reg s)(regA \<mapsto> js_add a (Num 1))\<rparr>
      else if op = ''MOD'' then
        (if strict_eq b (Num 0)
         then stopClock (s\<lparr>console_error :=
                console_error s @ [(''2nd param could not be 0'', None)]\<rparr>)
         else s\<lparr>reg := (reg s)(regA \<mapsto> js_mod a b)\<rparr>)
      else if op = ''MUL'' then s\<lparr>reg := (reg s)(regA \<mapsto> js_mul a b)\<rparr>
      else if op = ''SUB'' then s\<lparr>reg := (reg s)(regA \<mapsto> js_sub a b)\<rparr>
      else if op = ''CMP'' then setFlag FL_EQ (strict_eq a b) s
      else s)"

subsection \<open>Instruction handlers\<close>

text \<open>
  A handler called with fewer arguments than it has parameters finds \<open>undefined\<close> in the
  others: \<open>NOT\<close>, \<open>DEC\<close> and \<open>INC\<close> pass no \<open>regB\<close> to \<open>alu\<close>.
\<close>

definition ADD :: "jsval \<Rightarrow> jsval \<Rightarrow> CPU \<Rightarrow> CPU" where
  "ADD regA regB s = alu ''ADD'' regA regB s"

definition AND :: "jsval \<Rightarrow> jsval \<Rightarrow> CPU \<Rightarrow> CPU" where
  "AND regA regB s = alu ''AND'' regA regB s"

definition OR :: "jsval \<Rightarrow> jsval \<Rightarrow> CPU \<Rightarrow> CPU" where
  "OR regA regB s = alu ''OR'' regA regB s"

definition NOT :: "jsval \<Rightarrow> CPU \<Rightarrow> CPU" where
  "NOT regA s = alu ''NOT'' regA Undefined s"

definition XOR :: "jsval \<Rightarrow> jsval \<Rightarrow> CPU \<Rightarrow> CPU" where
  "XOR regA regB s = alu ''XOR'' regA regB s"

definition DEC :: "jsval \<Rightarrow> CPU \<Rightarrow> CPU" where
  "DEC regA s = alu ''DEC'' regA Undefined s"

definition DIV :: "jsval \<Rightarrow> jsval \<Rightarrow> CPU \<Rightarrow> CPU" where
  "DIV regA regB s = alu ''DIV'' regA regB s"

definition INC :: "jsval \<Rightarrow> CPU \<Rightarrow> CPU" where
  "INC regA s = alu ''INC'' regA Undefined s"

definition MOD :: "jsval \<Rightarrow> jsval \<Rightarrow> CPU \<Rightarrow> CPU" where
  "MOD regA regB s = alu ''MOD'' regA regB s"

definition MUL :: "jsval \<Rightarrow> jsval \<Rightarrow> CPU \<Rightarrow> CPU" where
  "MUL regA regB s = alu ''MUL'' regA regB s"

definition NOP :: "CPU \<Rightarrow> CPU" where
  "NOP s = s"

definition HLT :: "CPU \<Rightarrow> CPU" where
  "HLT s = stopClock s"

definition LDI :: "jsval \<Rightarrow> jsval \<Rightarrow> CPU \<Rightarrow> CPU" where
  "LDI regNum val s = s\<lparr>reg := (reg s)(regNum \<mapsto> val)\<rparr>"

definition PRN :: "jsval \<Rightarrow> CPU \<Rightarrow> CPU" where
  "PRN regA s = s\<lparr>console_log := console_log s @ [js_get (reg s) regA]\<rparr>"

definition SUB :: "jsval \<Rightarrow> jsval \<Rightarrow> CPU \<Rightarrow> CPU" where
  "SUB regA regB s = alu ''SUB'' regA regB s"

definition pushHelper :: "jsval \<Rightarrow> CPU \<Rightarrow> CPU" where
  "pushHelper val s =
     (let s1 = s\<lparr>reg := (reg s)(SP \<mapsto> js_sub (js_get (reg s) SP) (Num 1))\<rparr>
      in s1\<lparr>ram := RAM_write (js_get (reg s1) SP) val (ram s1)\<rparr>)"

text \<open>\<open>CALL\<close> and \<open>RET\<close> return the next PC together with the state.\<close>

definition CALL :: "jsval \<Rightarrow> CPU \<Rightarrow> jsval \<times> CPU" where
  "CALL regNum s =
     (let s1 = pushHelper (js_add (PC s) (Num 2)) s
      in (js_get (reg s1) regNum, s1))"

definition popHelper :: "CPU \<Rightarrow> jsval \<times> CPU" where
  "popHelper s =
     (let val = RAM_read (js_get (reg s) SP) (ram s);
          s1 = s\<lparr>reg := (reg s)(SP \<mapsto> js_sub (js_get (reg s) SP) (Num 1))\<rparr>
      in (val, s1))"

definition RET :: "CPU \<Rightarrow> jsval \<times> CPU" where
  "RET s = (let (nextPC, s1) = popHelper s in (nextPC, s1))"

definition POP :: "jsval \<Rightarrow> CPU \<Rightarrow> CPU" where
  "POP regNum s =
     (let (val, s1) = popHelper s
      in s1\<lparr>reg := (reg s1)(regNum \<mapsto> val)\<rparr>)"

definition PUSH :: "jsval \<Rightarrow> CPU \<Rightarrow> CPU" where
  "PUSH regNum s = (let val = js_get (reg s) regNum in pushHelper val s)"

definition CMP :: "jsval \<Rightarrow> jsval \<Rightarrow> CPU \<Rightarrow> CPU" where
  "CMP regA regB s = alu ''CMP'' regA regB s"

subsection \<open>The instruction cycle\<close>

text \<open>
  \<open>handler.call(this, operandA, operandB)\<close>: the result is what the method returns,
  \<open>undefined\<close> for a method that returns nothing, and the state it leaves.
\<close>

fun call :: "handler \<Rightarrow> jsval \<Rightarrow> jsval \<Rightarrow> CPU \<Rightarrow> jsval \<times> CPU" where
  "call this_HLT a b s = (Undefined, HLT s)"
| "call this_ADD a b s = (Undefined, ADD a b s)"
| "call this_AND a b s = (Undefined, AND a b s)"
| "call this_CALL a b s = CALL a s"
| "call this_CMP a b s = (Undefined, CMP a b s)"
| "call this_DEC a b s = (Undefined, DEC a s)"
| "call this_DIV a b s = (Undefined, DIV a b s)"
| "call this_INC a b s = (Undefined, INC a s)"
| "call this_MOD a b s = (Undefined, MOD a b s)"
| "call this_MUL a b s = (Undefined, MUL a b s)"
| "call this_NOT a b s = (Undefined, NOT a s)"
| "call this_NOP a b s = (Undefined, NOP s)"
| "call this_LDI a b s = (Undefined, LDI a b s)"
| "call this_OR a b s = (Undefined, OR a b s)"
| "call this_PRN a b s = (Undefined, PRN a s)"
| "call this_PUSH a b s = (Undefined, PUSH a s)"
| "call this_POP a b s = (Undefined, POP a s)"
| "call this_RET a b s = RET s"
| "call this_SUB a b s = (Undefined, SUB a b s)"
| "call this_XOR a b s = (Undefined, XOR a b s)"

definition tick :: "CPU \<Rightarrow> CPU" where
  "tick s =
     (let s1 = s\<lparr>IR := RAM_read (PC s) (ram s)\<rparr> in
      case branchTable (IR s1) of
        None \<Rightarrow>
          stopClock (s1\<lparr>console_error :=
            console_error s1 @ [(''Unknown opcode'', Some (IR s1))]\<rparr>)
      | Some handler \<Rightarrow>
          (let operandA = RAM_read (js_add (PC s1) (Num 1)) (ram s1);
               operandB = RAM_read (js_add (PC s1) (Num 2)) (ram s1);
               (nextPC, s2) = call handler operandA operandB s1
           in if nextPC = Undefined
              then s2\<lparr>PC := js_add (PC s2)
                     (js_add (js_and (js_shr (IR s2) 6) (Num 3)) (Num 1))\<rparr>
              else s2\<lparr>PC := nextPC\<rparr>))"

text \<open>
  The callback of every interval is \<open>tick\<close>, and \<open>tick\<close> itself never asks whether the
  processor has halted. In one timer period the host runs the callback of each interval
  that was active when the period began, oldest first, leaving out an interval that an
  earlier callback of the same period has cleared: \<open>fire\<close>. \<open>cycles n\<close> is the effect of
  \<open>n\<close> periods.
\<close>

fun fire :: "nat list \<Rightarrow> CPU \<Rightarrow> CPU" where
  "fire [] s = s"
| "fire (i # js) s = fire js (if i \<in> set (timers s) then tick s else s)"

fun cycles :: "nat \<Rightarrow> CPU \<Rightarrow> CPU" where
  "cycles 0 s = s"
| "cycles (Suc n) s = cycles n (fire (timers s) s)"

subsection \<open>Example programs\<close>

text \<open>
  A processor on 256 bytes of memory, and small programs poked into it, on which the
  theorems below are evaluated. \<open>LDI\<close> is called here to preset a register.
\<close>

definition boot :: CPU where
  "boot = constructor (new_RAM 256)"

definition prog_unknown :: CPU where
  "prog_unknown = startClock (poke (Num 0) (Num 255) boot)"

definition prog_LDI :: CPU where
  "prog_LDI = startClock (poke (Num 2) (Num 8) (poke (Num 1) (Num 0) (poke (Num 0) op_LDI boot)))"

definition prog_DIV :: CPU where
  "prog_DIV = startClock (LDI (Num 0) (Num 8)
     (poke (Num 2) (Num 1) (poke (Num 1) (Num 0) (poke (Num 0) op_DIV boot))))"

definition prog_CALL :: CPU where
  "prog_CALL = startClock (LDI (Num 0) (Num 10)
     (poke (Num 10) op_RET (poke (Num 1) (Num 0) (poke (Num 0) op_CALL boot))))"

text \<open>The same two programs on a processor whose clock has been started twice.\<close>

definition prog_unknown2 :: CPU where
  "prog_unknown2 = startClock prog_unknown"

definition prog_DIV2 :: CPU where
  "prog_DIV2 = startClock prog_DIV"

text \<open>
  \<open>CALL R0\<close> at address 0, after a stack pointer set to 0 and two pops into register 0:
  the second pop reads address -1, which was never written.
\<close>

definition prog_CALL_undef :: CPU where
  "prog_CALL_undef = startClock (POP (Num 0) (POP (Num 0) (LDI (Num 7) (Num 0)
     (poke (Num 1) (Num 0) (poke (Num 0) op_CALL boot)))))"

definition prog_CALL7 :: CPU where
  "prog_CALL7 = startClock (poke (Num 1) (Num 7) (poke (Num 0) op_CALL boot))"

text \<open>
  Register 0 incremented after the same two pops, and the Equal flag set by comparing
  register 1 with itself.
\<close>

definition prog_NaN :: CPU where
  "prog_NaN = CMP (Num 1) (Num 1) (INC (Num 0) (POP (Num 0) (POP (Num 0)
     (LDI (Num 7) (Num 0) boot))))"

definition prog_B3 :: CPU where
  "prog_B3 = startClock (LDI (Num 1) (Num 2) (LDI (Num 0) (Num 1)
     (poke (Num 2) (Num 1) (poke (Num 1) (Num 0) (poke (Num 0) (Num 179) boot)))))"

section \<open>Auxiliary facts\<close>

lemmas opcode_defs =
  op_HLT_def op_ADD_def op_AND_def op_CALL_def op_CMP_def op_DEC_def op_DIV_def
  op_INC_def op_MOD_def op_MUL_def op_NOT_def op_NOP_def op_LDI_def op_OR_def
  op_PRN_def op_PUSH_def op_POP_def op_RET_def op_SUB_def op_XOR_def

lemma trunc_of_int [simp]: "trunc (of_int i) = i"
  by (simp add: trunc_def)

lemma ToInt32_from_int32 [simp]: "ToInt32 (from_int32 w) = w"
  by (simp only: from_int32_def ToInt32.simps trunc_of_int) simp

lemma ToInt32_FL_EQ [simp]: "ToInt32 FL_EQ = 1"
  using trunc_of_int [of 1] by (simp add: FL_EQ_def del: trunc_of_int)

lemma strict_eq_iff: "strict_eq a b \<longleftrightarrow> a = b \<and> a \<noteq> NaN"
  by (cases a; cases b) auto

lemma CMP_FL:
  "FL (CMP regA regB s) =
     (if strict_eq (js_get (reg s) regA) (js_get (reg s) regB)
      then js_or (FL s) FL_EQ else js_and (FL s) (js_not FL_EQ))"
  by (simp add: CMP_def alu_def setFlag_def Let_def)

lemma cycles_no_timers: "timers s = [] \<Longrightarrow> cycles n s = s"
  by (induction n) simp_all

lemma filter_stored_only:
  "set js \<subseteq> set_option h \<Longrightarrow> filter (\<lambda>j. Some j \<noteq> h) js = []"
  by (cases h) (auto simp add: filter_empty_conv)

lemma branchTable_simps:
  "branchTable (Num 1) = Some this_HLT"
  "branchTable (Num 179) = Some this_AND"
  "branchTable (Num 72) = Some this_CALL"
  "branchTable (Num 160) = Some this_CMP"
  "branchTable (Num 121) = Some this_DEC"
  "branchTable (Num 171) = Some this_DIV"
  "branchTable (Num 120) = Some this_INC"
  "branchTable (Num 172) = Some this_MOD"
  "branchTable (Num 170) = Some this_MUL"
  "branchTable (Num 112) = Some this_NOT"
  "branchTable (Num 0) = Some this_NOP"
  "branchTable (Num 153) = Some this_LDI"
  "branchTable (Num 177) = Some this_OR"
  "branchTable (Num 67) = Some this_PRN"
  "branchTable (Num 77) = Some this_PUSH"
  "branchTable (Num 76) = Some this_POP"
  "branchTable (Num 9) = Some this_RET"
  "branchTable (Num 169) = Some this_SUB"
  "branchTable (Num 178) = Some this_XOR"
  by (simp_all add: branchTable_def opcode_defs)

lemma alu_PC: "PC (alu op a b s) = PC s"
  by (simp add: alu_def Let_def setFlag_def stopClock_def clearInterval_def)

lemma alu_IR: "IR (alu op a b s) = IR s"
  by (simp add: alu_def Let_def setFlag_def stopClock_def clearInterval_def)

lemmas handler_defs =
  HLT_def ADD_def AND_def CALL_def CMP_def DEC_def DIV_def INC_def MOD_def MUL_def
  NOT_def NOP_def LDI_def OR_def PRN_def PUSH_def POP_def RET_def SUB_def XOR_def

lemma call_PC: "PC (snd (call h a b s)) = PC s"
  by (cases h)
    (simp_all add: handler_defs alu_PC pushHelper_def popHelper_def stopClock_def clearInterval_def Let_def)

lemma call_IR: "IR (snd (call h a b s)) = IR s"
  by (cases h)
    (simp_all add: handler_defs alu_IR pushHelper_def popHelper_def stopClock_def clearInterval_def Let_def)

lemma call_Undefined:
  "h \<noteq> this_CALL \<Longrightarrow> h \<noteq> this_RET \<Longrightarrow> fst (call h a b s) = Undefined"
  by (cases h) simp_all

lemma js_sub_defined [simp]: "js_sub x y \<noteq> Undefined"
  by (cases x; cases y) simp_all

lemma js_add_defined [simp]: "js_add x y \<noteq> Undefined"
  by (cases x; cases y) simp_all

lemma alu_DIV_zero:
  "js_get (reg s) regB = Num 0 \<Longrightarrow>
   alu ''DIV'' regA regB s =
     s\<lparr>timers := filter (\<lambda>j. Some j \<noteq> clock s) (timers s),
       console_error := console_error s @ [(''2nd param could not be 0'', None)]\<rparr>"
  by (simp add: alu_def stopClock_def clearInterval_def Let_def)

lemma alu_MOD_zero:
  "js_get (reg s) regB = Num 0 \<Longrightarrow>
   alu ''MOD'' regA regB s =
     s\<lparr>timers := filter (\<lambda>j. Some j \<noteq> clock s) (timers s),
       console_error := console_error s @ [(''2nd param could not be 0'', None)]\<rparr>"
  by (simp add: alu_def stopClock_def clearInterval_def Let_def)

lemma js_get_upd: "js_get (m(k \<mapsto> v)) k' = (if k' = k then v else js_get m k')"
  by (simp add: js_get_def)

lemma POP_SP:
  "regNum \<noteq> SP \<Longrightarrow> js_get (reg (POP regNum s)) SP = js_sub (js_get (reg s) SP) (Num 1)"
  by (simp add: POP_def popHelper_def Let_def js_get_def)

lemma PUSH_POP_register:
  "js_get (reg (POP regNum (PUSH regNum s))) regNum = js_get (reg s) regNum"
  by (simp add: POP_def PUSH_def popHelper_def pushHelper_def Let_def js_get_def
      RAM_read_def RAM_write_def)

lemma PUSH_POP_SP:
  "regNum \<noteq> SP \<Longrightarrow>
   js_get (reg (POP regNum (PUSH regNum s))) SP =
     js_sub (js_sub (js_get (reg s) SP) (Num 1)) (Num 1)"
  by (simp add: POP_def PUSH_def popHelper_def pushHelper_def Let_def js_get_def)

lemmas eval_defs =
  boot_def constructor_def new_RAM_def Array_fill_def poke_def RAM_write_def RAM_read_def
  js_get_def startClock_def setInterval_def LDI_def SP_def opcode_defs

text \<open>
  Two pushes followed by two pops: the first pop returns the value pushed last, the
  second reads below the stack instead of the value pushed first.
\<close>

lemma POP_twice_misses:
  "js_get (reg (POP (Num 3) (POP (Num 2) (PUSH (Num 1) (PUSH (Num 0)
     (LDI (Num 1) (Num 6) (LDI (Num 0) (Num 5) boot))))))) (Num 2) = Num 6 \<and>
   js_get (reg (POP (Num 3) (POP (Num 2) (PUSH (Num 1) (PUSH (Num 0)
     (LDI (Num 1) (Num 6) (LDI (Num 0) (Num 5) boot))))))) (Num 3) = Num 0"
  by (simp add: POP_def PUSH_def popHelper_def pushHelper_def Let_def eval_defs)

lemma opcount_153: "js_add (js_and (js_shr (Num 153) 6) (Num 3)) (Num 1) = Num 3"
  by code_simp

lemma ev179: "js_and (Num 1) (Num 2) = Num 0"
  by code_simp

lemma opcount_0: "js_add (js_and (js_shr (Num 0) 6) (Num 3)) (Num 1) = Num 1"
  by code_simp

lemma opcount_171: "js_add (js_and (js_shr (Num 171) 6) (Num 3)) (Num 1) = Num 3"
  by code_simp

lemma opcount_72: "js_add (js_and (js_shr (Num 72) 6) (Num 3)) (Num 1) = Num 2"
  by code_simp

text \<open>What one cycle does on an unknown opcode, on \<open>NOP\<close>, on a division by zero and on \<open>CALL\<close>.\<close>

lemma tick_unknown:
  assumes "branchTable (RAM_read (PC s) (ram s)) = None"
  shows "tick s = s\<lparr>IR := RAM_read (PC s) (ram s),
            timers := filter (\<lambda>j. Some j \<noteq> clock s) (timers s),
            console_error := console_error s @
              [(''Unknown opcode'', Some (RAM_read (PC s) (ram s)))]\<rparr>"
  using assms by (simp add: tick_def stopClock_def clearInterval_def Let_def)

lemma tick_NOP:
  assumes "RAM_read (PC s) (ram s) = Num 0"
  shows "tick s = s\<lparr>IR := Num 0, PC := js_add (PC s) (Num 1)\<rparr>"
  using assms by (simp add: tick_def Let_def branchTable_simps NOP_def opcount_0)

lemma tick_DIV_MOD_zero:
  assumes "RAM_read (PC s) (ram s) = op_DIV \<or> RAM_read (PC s) (ram s) = op_MOD"
    and "js_get (reg s) (RAM_read (js_add (PC s) (Num 2)) (ram s)) = Num 0"
  shows "tick s = s\<lparr>IR := RAM_read (PC s) (ram s),
            PC := js_add (PC s)
              (js_add (js_and (js_shr (RAM_read (PC s) (ram s)) 6) (Num 3)) (Num 1)),
            timers := filter (\<lambda>j. Some j \<noteq> clock s) (timers s),
            console_error := console_error s @ [(''2nd param could not be 0'', None)]\<rparr>"
proof -
  let ?s1 = "s\<lparr>IR := RAM_read (PC s) (ram s)\<rparr>"
  let ?regA = "RAM_read (js_add (PC s) (Num 1)) (ram s)"
  let ?regB = "RAM_read (js_add (PC s) (Num 2)) (ram s)"
  have z: "js_get (reg ?s1) ?regB = Num 0"
    using assms(2) by simp
  from assms(1) show ?thesis
  proof
    assume "RAM_read (PC s) (ram s) = op_DIV"
    then show ?thesis
      using alu_DIV_zero [OF z, of ?regA]
      by (simp add: tick_def Let_def DIV_def branchTable_simps op_DIV_def)
  next
    assume "RAM_read (PC s) (ram s) = op_MOD"
    then show ?thesis
      using alu_MOD_zero [OF z, of ?regA]
      by (simp add: tick_def Let_def MOD_def branchTable_simps op_MOD_def)
  qed
qed

lemma tick_CALL:
  assumes "RAM_read (PC s) (ram s) = op_CALL"
  shows "tick s =
    (let s2 = pushHelper (js_add (PC s) (Num 2)) (s\<lparr>IR := op_CALL\<rparr>);
         target = js_get (reg s2) (RAM_read (js_add (PC s) (Num 1)) (ram s))
     in if target = Undefined then s2\<lparr>PC := js_add (PC s) (Num 2)\<rparr>
        else s2\<lparr>PC := target\<rparr>)"
proof -
  have pc: "PC (pushHelper v t) = PC t" and ir: "IR (pushHelper v t) = IR t" for v t
    by (simp_all add: pushHelper_def Let_def)
  show ?thesis
    using assms
    by (simp add: tick_def Let_def CALL_def branchTable_simps op_CALL_def pc ir opcount_72)
qed

lemma FL_values:
  "js_or (Num 0) FL_EQ = Num 1" "js_and (Num 1) (js_not FL_EQ) = Num 0"
  "js_and (Num 0) (js_not FL_EQ) = Num 0"
  unfolding FL_EQ_def by code_simp+

section \<open>Memory\<close>

text \<open>
  Claim C10. A read of address \<open>a\<close> right after a write of \<open>v\<close> to \<open>a\<close> returns \<open>v\<close>, and a
  read of any other address \<open>b\<close> returns what it returned before the write. This holds
  for every address, the in-range ones (\<open>0 .. size - 1\<close>) among them.
\<close>

theorem RAM_read_after_write:
  "RAM_read a (RAM_write a v r) = v \<and>
   (b \<noteq> a \<longrightarrow> RAM_read b (RAM_write a v r) = RAM_read b r)"
  by (simp add: RAM_read_def RAM_write_def js_get_def)

theorem RAM_read_after_write_witness:
  "RAM_read (Num 3) (RAM_write (Num 3) (Num 9) (new_RAM 256)) = Num 9 \<and>
   Num 4 \<noteq> Num 3 \<and>
   RAM_read (Num 4) (RAM_write (Num 3) (Num 9) (new_RAM 256)) = Num 0 \<and>
   RAM_read (Num 4) (new_RAM 256) = Num 0"
  using RAM_read_after_write [of "Num 3" "Num 9" "new_RAM 256" "Num 4"]
  by (simp add: RAM_read_def new_RAM_def Array_fill_def js_get_def)

section \<open>The flags register\<close>

text \<open>
  Claim C5 as stated, on a processor whose register 0 holds \<open>NaN\<close> and whose Equal flag
  is set: \<open>CMP\<close> of register 0 with itself, two operands that hold the same value, clears
  the flag.
\<close>

theorem CMP_NaN_counterexample:
  "js_get (reg prog_NaN) (Num 0) = NaN \<and>
   FL prog_NaN = Num 1 \<and>
   FL (CMP (Num 0) (Num 0) prog_NaN) = Num 0 \<and>
   \<not> bit (ToInt32 (FL (CMP (Num 0) (Num 0) prog_NaN))) 0"
proof -
  let ?s = "INC (Num 0) (POP (Num 0) (POP (Num 0) (LDI (Num 7) (Num 0) boot)))"
  have r0: "js_get (reg ?s) (Num 0) = NaN" and r1: "js_get (reg ?s) (Num 1) = Num 0"
    and fl: "FL ?s = Num 0"
    by (simp_all add: INC_def alu_def POP_def popHelper_def Let_def eval_defs)
  have reg: "reg prog_NaN = reg ?s"
    by (simp add: prog_NaN_def CMP_def alu_def setFlag_def Let_def)
  have a: "js_get (reg prog_NaN) (Num 0) = NaN"
    unfolding reg by (rule r0)
  have b: "FL prog_NaN = Num 1"
    unfolding prog_NaN_def CMP_FL r1 fl by (simp add: FL_values)
  have c: "FL (CMP (Num 0) (Num 0) prog_NaN) = Num 0"
    unfolding CMP_FL a b by (simp add: FL_values)
  have d: "\<not> bit (ToInt32 (FL (CMP (Num 0) (Num 0) prog_NaN))) 0"
    unfolding c by (simp add: trunc_def)
  show ?thesis
    by (intro conjI a b c d)
qed

text \<open>
  Claim C5 as amended. After \<open>CMP regA regB\<close> the Equal bit (bit 0) of the flags register
  is 1 if and only if the two registers hold the same value and that value is not \<open>NaN\<close>
  (the code compares with \<open>===\<close>, under which \<open>NaN\<close> is not equal to itself); it is 0
  otherwise.
\<close>

theorem CMP_Equal_flag:
  "bit (ToInt32 (FL (CMP regA regB s))) 0 \<longleftrightarrow>
     js_get (reg s) regA = js_get (reg s) regB \<and> js_get (reg s) regA \<noteq> NaN"
  by (auto simp add: CMP_FL strict_eq_iff js_or_def js_and_def js_not_def
      bit_or_iff bit_and_iff bit_not_iff)

theorem CMP_Equal_flag_witness:
  "js_get (reg prog_DIV) (Num 1) = Num 0 \<and> js_get (reg prog_DIV) (Num 2) = Num 0 \<and>
   js_get (reg prog_DIV) (Num 0) = Num 8 \<and>
   bit (ToInt32 (FL (CMP (Num 1) (Num 2) prog_DIV))) 0 \<and>
   \<not> bit (ToInt32 (FL (CMP (Num 0) (Num 1) prog_DIV))) 0"
proof -
  have r0: "js_get (reg prog_DIV) (Num 0) = Num 8"
    and r1: "js_get (reg prog_DIV) (Num 1) = Num 0"
    and r2: "js_get (reg prog_DIV) (Num 2) = Num 0"
    by (simp_all add: prog_DIV_def eval_defs)
  have eq: "bit (ToInt32 (FL (CMP (Num 1) (Num 2) prog_DIV))) 0"
    using CMP_Equal_flag [of "Num 1" "Num 2" prog_DIV] by (simp add: r1 r2)
  have ne: "\<not> bit (ToInt32 (FL (CMP (Num 0) (Num 1) prog_DIV))) 0"
    using CMP_Equal_flag [of "Num 0" "Num 1" prog_DIV] by (simp add: r0 r1)
  show ?thesis
    by (intro conjI r1 r2 r0 eq ne)
qed

text \<open>
  Claim C9. \<open>CMP\<close> changes at most bit 0 of the flags register: every other bit, the
  Greater-Than bit 1 and the Less-Than bit 2 among them, keeps its value.
\<close>

theorem CMP_keeps_other_flags:
  "n \<noteq> 0 \<Longrightarrow> bit (ToInt32 (FL (CMP regA regB s))) n = bit (ToInt32 (FL s)) n"
  by (auto simp add: CMP_FL js_or_def js_and_def js_not_def
      bit_or_iff bit_and_iff bit_not_iff bit_1_iff dest: bit_imp_le_length)

theorem CMP_keeps_other_flags_witness:
  "(1::nat) \<noteq> 0 \<and>
   FL (CMP (Num 0) (Num 1) ((constructor (new_RAM 256))\<lparr>FL := Num 6\<rparr>)) = Num 7 \<and>
   bit (ToInt32 (Num 7)) (1::nat) = bit (ToInt32 (Num 6)) 1"
  using CMP_keeps_other_flags
    [of 1 "Num 0" "Num 1" "(constructor (new_RAM 256))\<lparr>FL := Num 6\<rparr>"]
  by (simp add: CMP_FL constructor_def Array_fill_def js_get_def SP_def js_or_def
      from_int32_def FL_EQ_def trunc_def)

section \<open>The instruction cycle\<close>

text \<open>
  Claim C7 as stated, on a processor whose clock has been started twice: the cycle on the
  unknown opcode 255 clears the interval started last, the one started first stays
  active, and the next timer period runs another cycle, which reports the opcode again.
\<close>

theorem unknown_opcode_second_interval:
  "branchTable (RAM_read (PC prog_unknown2) (ram prog_unknown2)) = None \<and>
   timers prog_unknown2 = [0, 1] \<and>
   clock prog_unknown2 = Some 1 \<and>
   timers (tick prog_unknown2) = [0] \<and>
   console_error (tick prog_unknown2) = [(''Unknown opcode'', Some (Num 255))] \<and>
   console_error (cycles (Suc 0) (tick prog_unknown2)) =
     [(''Unknown opcode'', Some (Num 255)), (''Unknown opcode'', Some (Num 255))]"
proof -
  have pc: "PC prog_unknown2 = Num 0"
    and tm: "timers prog_unknown2 = [0, 1]"
    and ck: "clock prog_unknown2 = Some 1"
    and e: "console_error prog_unknown2 = []"
    and ir: "RAM_read (Num 0) (ram prog_unknown2) = Num 255"
    by (simp_all add: prog_unknown2_def prog_unknown_def eval_defs)
  have n: "branchTable (Num 255) = None"
    by (simp add: branchTable_def opcode_defs)
  have h: "branchTable (RAM_read (PC prog_unknown2) (ram prog_unknown2)) = None"
    unfolding pc ir by (rule n)
  note t = tick_unknown [OF h]
  have pc1: "PC (tick prog_unknown2) = Num 0"
    and ram1: "ram (tick prog_unknown2) = ram prog_unknown2"
    and tm1: "timers (tick prog_unknown2) = [0]"
    and ck1: "clock (tick prog_unknown2) = Some 1"
    and e1: "console_error (tick prog_unknown2) = [(''Unknown opcode'', Some (Num 255))]"
    unfolding t by (simp_all add: pc tm ck e ir)
  have h1: "branchTable (RAM_read (PC (tick prog_unknown2)) (ram (tick prog_unknown2))) = None"
    unfolding pc1 ram1 ir by (rule n)
  have "cycles (Suc 0) (tick prog_unknown2) = tick (tick prog_unknown2)"
    by (simp add: tm1)
  moreover have "console_error (tick (tick prog_unknown2)) =
      [(''Unknown opcode'', Some (Num 255)), (''Unknown opcode'', Some (Num 255))]"
    unfolding tick_unknown [OF h1] by (simp add: e1 pc1 ram1 ir)
  ultimately have again: "console_error (cycles (Suc 0) (tick prog_unknown2)) =
      [(''Unknown opcode'', Some (Num 255)), (''Unknown opcode'', Some (Num 255))]"
    by simp
  show ?thesis
    by (intro conjI h tm ck tm1 e1 again)
qed

text \<open>
  Claim C7 as amended. When the fetched opcode has no entry in the branch table, the
  cycle reports an unknown-opcode failure that carries the opcode, and clears the interval
  stored in \<open>this.clock\<close>: apart from the instruction register, the error line and that
  interval the state is as before (no handler has run, PC has not moved). When no other
  interval is active, none is left and no later timer period changes the state.
\<close>

theorem unknown_opcode_halts:
  assumes "branchTable (RAM_read (PC s) (ram s)) = None"
  shows "tick s = s\<lparr>IR := RAM_read (PC s) (ram s),
            timers := filter (\<lambda>j. Some j \<noteq> clock s) (timers s),
            console_error := console_error s @
              [(''Unknown opcode'', Some (RAM_read (PC s) (ram s)))]\<rparr> \<and>
         PC (tick s) = PC s \<and>
         (set (timers s) \<subseteq> set_option (clock s) \<longrightarrow>
            timers (tick s) = [] \<and> (\<forall>n. cycles n (tick s) = tick s))"
proof -
  note t = tick_unknown [OF assms]
  have "timers (tick s) = [] \<and> (\<forall>n. cycles n (tick s) = tick s)"
    if "set (timers s) \<subseteq> set_option (clock s)"
  proof -
    have "timers (tick s) = []"
      using filter_stored_only [OF that] by (simp add: t)
    then show ?thesis by (simp add: cycles_no_timers)
  qed
  moreover have "PC (tick s) = PC s" by (simp add: t)
  ultimately show ?thesis using t by blast
qed

theorem unknown_opcode_halts_witness:
  "branchTable (RAM_read (PC prog_unknown) (ram prog_unknown)) = None \<and>
   set (timers prog_unknown) \<subseteq> set_option (clock prog_unknown) \<and>
   timers prog_unknown = [0] \<and>
   PC (tick prog_unknown) = Num 0 \<and>
   console_error (tick prog_unknown) = [(''Unknown opcode'', Some (Num 255))] \<and>
   timers (tick prog_unknown) = [] \<and>
   cycles 3 (tick prog_unknown) = tick prog_unknown"
proof -
  have pc: "PC prog_unknown = Num 0"
    and tm: "timers prog_unknown = [0]"
    and ck: "clock prog_unknown = Some 0"
    and e: "console_error prog_unknown = []"
    and ir: "RAM_read (Num 0) (ram prog_unknown) = Num 255"
    by (simp_all add: prog_unknown_def eval_defs)
  have h: "branchTable (RAM_read (PC prog_unknown) (ram prog_unknown)) = None"
    unfolding pc ir by (simp add: branchTable_def opcode_defs)
  have single: "set (timers prog_unknown) \<subseteq> set_option (clock prog_unknown)"
    by (simp add: tm ck)
  note th = unknown_opcode_halts [OF h]
  from th have t: "tick prog_unknown =
      prog_unknown\<lparr>IR := RAM_read (PC prog_unknown) (ram prog_unknown),
        timers := filter (\<lambda>j. Some j \<noteq> clock prog_unknown) (timers prog_unknown),
        console_error := console_error prog_unknown @
          [(''Unknown opcode'', Some (RAM_read (PC prog_unknown) (ram prog_unknown)))]\<rparr>"
    by (rule conjunct1)
  from th single have none: "timers (tick prog_unknown) = []"
    and stay: "cycles 3 (tick prog_unknown) = tick prog_unknown"
    by blast+
  have p: "PC (tick prog_unknown) = Num 0"
    and er: "console_error (tick prog_unknown) = [(''Unknown opcode'', Some (Num 255))]"
    unfolding t pc ir by (simp_all add: pc e)
  show ?thesis
    by (intro conjI h single tm p er none stay)
qed

text \<open>
  Claim C4. When the fetched opcode has a handler and the handler returns no next PC
  (every handler other than \<open>CALL\<close> and \<open>RET\<close> returns none), the cycle leaves PC at
  its value before the fetch plus \<open>((opcode >> 6) & 3) + 1\<close>.
\<close>

theorem PC_advance:
  assumes "branchTable (RAM_read (PC s) (ram s)) = Some h"
    and "(h \<noteq> this_CALL \<and> h \<noteq> this_RET) \<or>
         fst (call h (RAM_read (js_add (PC s) (Num 1)) (ram s))
                     (RAM_read (js_add (PC s) (Num 2)) (ram s))
                     (s\<lparr>IR := RAM_read (PC s) (ram s)\<rparr>)) = Undefined"
  shows "PC (tick s) =
           js_add (PC s) (js_add (js_and (js_shr (RAM_read (PC s) (ram s)) 6) (Num 3)) (Num 1))"
proof -
  define s1 where "s1 = s\<lparr>IR := RAM_read (PC s) (ram s)\<rparr>"
  define operandA where "operandA = RAM_read (js_add (PC s) (Num 1)) (ram s)"
  define operandB where "operandB = RAM_read (js_add (PC s) (Num 2)) (ram s)"
  obtain nextPC s2 where c: "call h operandA operandB s1 = (nextPC, s2)"
    by (cases "call h operandA operandB s1")
  have "nextPC = Undefined"
    using assms(2) c call_Undefined [of h operandA operandB s1]
    by (auto simp add: s1_def operandA_def operandB_def)
  moreover have "PC s2 = PC s" "IR s2 = RAM_read (PC s) (ram s)"
    using call_PC [of h operandA operandB s1] call_IR [of h operandA operandB s1] c
    by (simp_all add: s1_def)
  ultimately show ?thesis
    using assms(1) c
    by (simp add: tick_def Let_def s1_def operandA_def operandB_def)
qed

theorem PC_advance_witness:
  "branchTable (RAM_read (PC prog_LDI) (ram prog_LDI)) = Some this_LDI \<and>
   this_LDI \<noteq> this_CALL \<and> this_LDI \<noteq> this_RET \<and>
   PC prog_LDI = Num 0 \<and> PC (tick prog_LDI) = Num 3"
proof -
  have pc: "PC prog_LDI = Num 0"
    and ir: "RAM_read (Num 0) (ram prog_LDI) = Num 153"
    by (simp_all add: prog_LDI_def eval_defs)
  have h: "branchTable (RAM_read (PC prog_LDI) (ram prog_LDI)) = Some this_LDI"
    unfolding pc ir by (simp add: branchTable_simps)
  have "PC (tick prog_LDI) = js_add (PC prog_LDI)
      (js_add (js_and (js_shr (RAM_read (PC prog_LDI) (ram prog_LDI)) 6) (Num 3)) (Num 1))"
    by (rule PC_advance [OF h]) simp
  then have "PC (tick prog_LDI) = Num 3"
    unfolding pc ir opcount_153 by simp
  with h pc show ?thesis by simp
qed

section \<open>Division by zero\<close>

text \<open>
  Claim C3 as stated, on a processor whose clock has been started twice: the cycle that
  executes \<open>DIV\<close> with a zero divisor clears the interval started last, the one started
  first stays active, and the next timer period runs another cycle, which moves PC on
  from 3 to 4.
\<close>

theorem DIV_by_zero_second_interval:
  "RAM_read (PC prog_DIV2) (ram prog_DIV2) = op_DIV \<and>
   js_get (reg prog_DIV2) (Num 1) = Num 0 \<and>
   timers prog_DIV2 = [0, 1] \<and>
   clock prog_DIV2 = Some 1 \<and>
   timers (tick prog_DIV2) = [0] \<and>
   PC (tick prog_DIV2) = Num 3 \<and>
   PC (cycles (Suc 0) (tick prog_DIV2)) = Num 4"
proof -
  have pc: "PC prog_DIV2 = Num 0"
    and ir: "RAM_read (Num 0) (ram prog_DIV2) = Num 171"
    and b: "RAM_read (Num 2) (ram prog_DIV2) = Num 1"
    and m3: "RAM_read (Num 3) (ram prog_DIV2) = Num 0"
    and r1: "js_get (reg prog_DIV2) (Num 1) = Num 0"
    and tm: "timers prog_DIV2 = [0, 1]"
    and ck: "clock prog_DIV2 = Some 1"
    by (simp_all add: prog_DIV2_def prog_DIV_def eval_defs)
  have f: "RAM_read (PC prog_DIV2) (ram prog_DIV2) = op_DIV"
    unfolding pc ir by (simp add: op_DIV_def)
  have z: "js_get (reg prog_DIV2)
      (RAM_read (js_add (PC prog_DIV2) (Num 2)) (ram prog_DIV2)) = Num 0"
    unfolding pc by (simp add: b r1)
  note t = tick_DIV_MOD_zero [OF disjI1 [OF f] z]
  have pc1: "PC (tick prog_DIV2) = Num 3"
    and ram1: "ram (tick prog_DIV2) = ram prog_DIV2"
    and tm1: "timers (tick prog_DIV2) = [0]"
    unfolding t by (simp_all add: pc ir tm ck opcount_171)
  have nop: "RAM_read (PC (tick prog_DIV2)) (ram (tick prog_DIV2)) = Num 0"
    unfolding pc1 ram1 by (rule m3)
  have "cycles (Suc 0) (tick prog_DIV2) = tick (tick prog_DIV2)"
    by (simp add: tm1)
  moreover have "PC (tick (tick prog_DIV2)) = Num 4"
    unfolding tick_NOP [OF nop] by (simp add: pc1)
  ultimately have further: "PC (cycles (Suc 0) (tick prog_DIV2)) = Num 4"
    by simp
  show ?thesis
    by (intro conjI f r1 tm ck tm1 pc1 further)
qed

text \<open>
  Claim C3 as amended. When the register named by the second operand holds 0, \<open>DIV\<close> and
  \<open>MOD\<close> only report the failure and clear the interval stored in \<open>this.clock\<close>. A cycle
  that executes either of them leaves every register as it was, register \<open>regA\<close>
  included, and appends the error line. When no other interval is active, none is left
  and no later timer period changes the state.
\<close>

theorem DIV_MOD_by_zero:
  assumes "RAM_read (PC s) (ram s) = op_DIV \<or> RAM_read (PC s) (ram s) = op_MOD"
    and "regA = RAM_read (js_add (PC s) (Num 1)) (ram s)"
    and "regB = RAM_read (js_add (PC s) (Num 2)) (ram s)"
    and "js_get (reg s) regB = Num 0"
  shows "DIV regA regB s =
           s\<lparr>timers := filter (\<lambda>j. Some j \<noteq> clock s) (timers s),
             console_error := console_error s @ [(''2nd param could not be 0'', None)]\<rparr> \<and>
         MOD regA regB s =
           s\<lparr>timers := filter (\<lambda>j. Some j \<noteq> clock s) (timers s),
             console_error := console_error s @ [(''2nd param could not be 0'', None)]\<rparr> \<and>
         reg (tick s) = reg s \<and>
         console_error (tick s) =
           console_error s @ [(''2nd param could not be 0'', None)] \<and>
         timers (tick s) = filter (\<lambda>j. Some j \<noteq> clock s) (timers s) \<and>
         (set (timers s) \<subseteq> set_option (clock s) \<longrightarrow>
            timers (tick s) = [] \<and> (\<forall>n. cycles n (tick s) = tick s))"
proof -
  have z: "js_get (reg s) (RAM_read (js_add (PC s) (Num 2)) (ram s)) = Num 0"
    using assms(3,4) by simp
  note t = tick_DIV_MOD_zero [OF assms(1) z]
  have r: "reg (tick s) = reg s"
    and e: "console_error (tick s) =
      console_error s @ [(''2nd param could not be 0'', None)]"
    and c: "timers (tick s) = filter (\<lambda>j. Some j \<noteq> clock s) (timers s)"
    by (simp_all add: t)
  have h: "timers (tick s) = [] \<and> (\<forall>n. cycles n (tick s) = tick s)"
    if "set (timers s) \<subseteq> set_option (clock s)"
  proof -
    have "timers (tick s) = []"
      using filter_stored_only [OF that] by (simp add: c)
    then show ?thesis by (simp add: cycles_no_timers)
  qed
  have d: "DIV regA regB s =
      s\<lparr>timers := filter (\<lambda>j. Some j \<noteq> clock s) (timers s),
        console_error := console_error s @ [(''2nd param could not be 0'', None)]\<rparr>"
    using alu_DIV_zero [OF assms(4), of regA] by (simp add: DIV_def)
  have m: "MOD regA regB s =
      s\<lparr>timers := filter (\<lambda>j. Some j \<noteq> clock s) (timers s),
        console_error := console_error s @ [(''2nd param could not be 0'', None)]\<rparr>"
    using alu_MOD_zero [OF assms(4), of regA] by (simp add: MOD_def)
  from d m r e c h show ?thesis by blast
qed

theorem DIV_MOD_by_zero_witness:
  "RAM_read (PC prog_DIV) (ram prog_DIV) = op_DIV \<and>
   js_get (reg prog_DIV) (Num 0) = Num 8 \<and>
   js_get (reg prog_DIV) (Num 1) = Num 0 \<and>
   set (timers prog_DIV) \<subseteq> set_option (clock prog_DIV) \<and>
   timers prog_DIV = [0] \<and>
   js_get (reg (tick prog_DIV)) (Num 0) = Num 8 \<and>
   console_error (tick prog_DIV) = [(''2nd param could not be 0'', None)] \<and>
   timers (tick prog_DIV) = [] \<and>
   cycles 3 (tick prog_DIV) = tick prog_DIV"
proof -
  have pc: "PC prog_DIV = Num 0"
    and ir: "RAM_read (Num 0) (ram prog_DIV) = op_DIV"
    and a: "RAM_read (Num 1) (ram prog_DIV) = Num 0"
    and b: "RAM_read (Num 2) (ram prog_DIV) = Num 1"
    and r0: "js_get (reg prog_DIV) (Num 0) = Num 8"
    and r1: "js_get (reg prog_DIV) (Num 1) = Num 0"
    and tm: "timers prog_DIV = [0]"
    and ck: "clock prog_DIV = Some 0"
    and e: "console_error prog_DIV = []"
    by (simp_all add: prog_DIV_def eval_defs)
  have f: "RAM_read (PC prog_DIV) (ram prog_DIV) = op_DIV"
    unfolding pc by (rule ir)
  have h1: "RAM_read (PC prog_DIV) (ram prog_DIV) = op_DIV \<or>
      RAM_read (PC prog_DIV) (ram prog_DIV) = op_MOD"
    using f by simp
  have h2: "Num 0 = RAM_read (js_add (PC prog_DIV) (Num 1)) (ram prog_DIV)"
    unfolding pc by (simp add: a)
  have h3: "Num 1 = RAM_read (js_add (PC prog_DIV) (Num 2)) (ram prog_DIV)"
    unfolding pc by (simp add: b)
  have single: "set (timers prog_DIV) \<subseteq> set_option (clock prog_DIV)"
    by (simp add: tm ck)
  note th = DIV_MOD_by_zero [OF h1 h2 h3 r1]
  from th single have rg: "reg (tick prog_DIV) = reg prog_DIV"
    and err: "console_error (tick prog_DIV) =
      console_error prog_DIV @ [(''2nd param could not be 0'', None)]"
    and none: "timers (tick prog_DIV) = []"
    and stay: "cycles 3 (tick prog_DIV) = tick prog_DIV"
    by blast+
  have r0': "js_get (reg (tick prog_DIV)) (Num 0) = Num 8"
    by (simp add: rg r0)
  have err': "console_error (tick prog_DIV) = [(''2nd param could not be 0'', None)]"
    by (simp add: err e)
  show ?thesis
    by (intro conjI f r0 r1 single tm r0' err' none stay)
qed

section \<open>The stack\<close>

text \<open>
  Claim C6 as stated, on two programs. \<open>CALL R0\<close> with register 0 holding \<open>undefined\<close>:
  the cycle takes the handler's result for "no next PC" and moves PC on by 2, from 0 to
  2, with no jump. \<open>CALL R7\<close> on the processor as constructed: register 7 holds 244
  before the cycle and PC is 243 after it, the stack pointer as the push left it.
\<close>

theorem CALL_undefined_counterexample:
  "RAM_read (PC prog_CALL_undef) (ram prog_CALL_undef) = op_CALL \<and>
   RAM_read (js_add (PC prog_CALL_undef) (Num 1)) (ram prog_CALL_undef) = Num 0 \<and>
   js_get (reg prog_CALL_undef) (Num 0) = Undefined \<and>
   PC prog_CALL_undef = Num 0 \<and>
   PC (tick prog_CALL_undef) = Num 2 \<and>
   RAM_read (PC prog_CALL7) (ram prog_CALL7) = op_CALL \<and>
   RAM_read (js_add (PC prog_CALL7) (Num 1)) (ram prog_CALL7) = Num 7 \<and>
   js_get (reg prog_CALL7) (Num 7) = Num 244 \<and>
   PC (tick prog_CALL7) = Num 243"
proof -
  have pc: "PC prog_CALL_undef = Num 0"
    and ir: "RAM_read (Num 0) (ram prog_CALL_undef) = op_CALL"
    and a: "RAM_read (Num 1) (ram prog_CALL_undef) = Num 0"
    and r0: "js_get (reg prog_CALL_undef) (Num 0) = Undefined"
    by (simp_all add: prog_CALL_undef_def POP_def popHelper_def Let_def eval_defs)
  have f: "RAM_read (PC prog_CALL_undef) (ram prog_CALL_undef) = op_CALL"
    unfolding pc by (rule ir)
  have a': "RAM_read (js_add (PC prog_CALL_undef) (Num 1)) (ram prog_CALL_undef) = Num 0"
    unfolding pc by (simp add: a)
  have ne: "Num 0 \<noteq> SP" by (simp add: SP_def)
  have p: "PC (tick prog_CALL_undef) = Num 2"
    unfolding tick_CALL [OF f] a'
    using r0 ne by (simp add: Let_def pushHelper_def js_get_upd pc)
  have pc7: "PC prog_CALL7 = Num 0"
    and ir7: "RAM_read (Num 0) (ram prog_CALL7) = op_CALL"
    and a7: "RAM_read (Num 1) (ram prog_CALL7) = Num 7"
    and r7: "js_get (reg prog_CALL7) (Num 7) = Num 244"
    by (simp_all add: prog_CALL7_def eval_defs)
  have f7: "RAM_read (PC prog_CALL7) (ram prog_CALL7) = op_CALL"
    unfolding pc7 by (rule ir7)
  have a7': "RAM_read (js_add (PC prog_CALL7) (Num 1)) (ram prog_CALL7) = Num 7"
    unfolding pc7 by (simp add: a7)
  have p7: "PC (tick prog_CALL7) = Num 243"
    unfolding tick_CALL [OF f7] a7'
    using r7 by (simp add: Let_def pushHelper_def js_get_upd SP_def)
  show ?thesis
    by (intro conjI f a' r0 pc p f7 a7' r7 p7)
qed

text \<open>
  Claim C6 as amended. A cycle that executes \<open>CALL\<close> on a register holding a value other
  than \<open>undefined\<close> decrements the stack pointer, stores PC + 2 at the new top of the stack
  and sets PC to the value the register holds once the push is done: for every register
  but the stack pointer the value it held before the cycle, for the stack pointer its
  decremented value. A later cycle that executes \<open>RET\<close> with the top of the stack as
  \<open>CALL\<close> left it sets PC to the PC before the call plus 2.
\<close>

theorem CALL_then_RET:
  assumes "RAM_read (PC s) (ram s) = op_CALL"
    and "regNum = RAM_read (js_add (PC s) (Num 1)) (ram s)"
    and "js_get (reg s) regNum \<noteq> Undefined"
  shows "js_get (reg (tick s)) SP = js_sub (js_get (reg s) SP) (Num 1) \<and>
         RAM_read (js_get (reg (tick s)) SP) (ram (tick s)) = js_add (PC s) (Num 2) \<and>
         PC (tick s) = js_get (reg (tick s)) regNum \<and>
         (regNum \<noteq> SP \<longrightarrow> PC (tick s) = js_get (reg s) regNum) \<and>
         (regNum = SP \<longrightarrow> PC (tick s) = js_sub (js_get (reg s) SP) (Num 1)) \<and>
         (\<forall>t. RAM_read (PC t) (ram t) = op_RET \<and>
              js_get (reg t) SP = js_get (reg (tick s)) SP \<and>
              RAM_read (js_get (reg t) SP) (ram t) =
                RAM_read (js_get (reg (tick s)) SP) (ram (tick s)) \<longrightarrow>
              PC (tick t) = js_add (PC s) (Num 2))"
proof -
  let ?s1 = "s\<lparr>IR := RAM_read (PC s) (ram s)\<rparr>"
  let ?s2 = "pushHelper (js_add (PC s) (Num 2)) ?s1"
  have target: "js_get (reg ?s2) regNum \<noteq> Undefined"
    using assms(3) by (cases "regNum = SP") (simp_all add: pushHelper_def Let_def js_get_def)
  have t: "tick s = ?s2\<lparr>PC := js_get (reg ?s2) regNum\<rparr>"
    using assms(1,2) target
    by (simp add: tick_def Let_def CALL_def branchTable_simps op_CALL_def)
  have sp: "js_get (reg (tick s)) SP = js_sub (js_get (reg s) SP) (Num 1)"
    by (simp add: t pushHelper_def Let_def js_get_def)
  have top: "RAM_read (js_get (reg (tick s)) SP) (ram (tick s)) = js_add (PC s) (Num 2)"
    by (simp add: t pushHelper_def Let_def js_get_def RAM_read_def RAM_write_def)
  have pc: "PC (tick s) = js_get (reg (tick s)) regNum"
    by (simp add: t)
  have pc': "regNum \<noteq> SP \<longrightarrow> PC (tick s) = js_get (reg s) regNum"
    by (simp add: t pushHelper_def Let_def js_get_def)
  have ret: "PC (tick t) = js_add (PC s) (Num 2)"
    if "RAM_read (PC t) (ram t) = op_RET"
      and "RAM_read (js_get (reg t) SP) (ram t) =
             RAM_read (js_get (reg (tick s)) SP) (ram (tick s))" for t
    using that top
    by (simp add: tick_def Let_def RET_def popHelper_def branchTable_simps op_RET_def)
  have pc'': "regNum = SP \<longrightarrow> PC (tick s) = js_sub (js_get (reg s) SP) (Num 1)"
    using sp pc by simp
  from sp top pc pc' pc'' ret show ?thesis by blast
qed

theorem CALL_then_RET_witness:
  "RAM_read (PC prog_CALL) (ram prog_CALL) = op_CALL \<and>
   RAM_read (js_add (PC prog_CALL) (Num 1)) (ram prog_CALL) = Num 0 \<and>
   js_get (reg prog_CALL) (Num 0) = Num 10 \<and>
   PC prog_CALL = Num 0 \<and>
   js_get (reg (tick prog_CALL)) SP = Num 243 \<and>
   RAM_read (Num 243) (ram (tick prog_CALL)) = Num 2 \<and>
   PC (tick prog_CALL) = Num 10 \<and>
   RAM_read (PC (tick prog_CALL)) (ram (tick prog_CALL)) = op_RET \<and>
   PC (tick (tick prog_CALL)) = Num 2"
proof -
  have pc: "PC prog_CALL = Num 0"
    and ir: "RAM_read (Num 0) (ram prog_CALL) = op_CALL"
    and a: "RAM_read (Num 1) (ram prog_CALL) = Num 0"
    and r0: "js_get (reg prog_CALL) (Num 0) = Num 10"
    and sp: "js_get (reg prog_CALL) SP = Num 244"
    and m10: "mem (ram prog_CALL) (Num 10) = Some op_RET"
    by (simp_all add: prog_CALL_def eval_defs)
  have h1: "RAM_read (PC prog_CALL) (ram prog_CALL) = op_CALL"
    unfolding pc by (rule ir)
  have h2: "Num 0 = RAM_read (js_add (PC prog_CALL) (Num 1)) (ram prog_CALL)"
    unfolding pc by (simp add: a)
  have h3: "js_get (reg prog_CALL) (Num 0) \<noteq> Undefined"
    by (simp add: r0)
  note th = CALL_then_RET [OF h1 h2 h3]
  have ne: "Num 0 \<noteq> SP" by (simp add: SP_def)
  from th ne have "PC (tick prog_CALL) = js_get (reg prog_CALL) (Num 0)"
    by blast
  then have pc1: "PC (tick prog_CALL) = Num 10"
    by (simp add: r0)
  from th have "js_get (reg (tick prog_CALL)) SP = js_sub (js_get (reg prog_CALL) SP) (Num 1)"
    by blast
  then have sp1: "js_get (reg (tick prog_CALL)) SP = Num 243"
    by (simp add: sp)
  from th have "RAM_read (js_get (reg (tick prog_CALL)) SP) (ram (tick prog_CALL)) =
      js_add (PC prog_CALL) (Num 2)"
    by blast
  then have top: "RAM_read (Num 243) (ram (tick prog_CALL)) = Num 2"
    by (simp add: sp1 pc)
  have "ram (tick prog_CALL) =
      RAM_write (Num 243) (Num 2) (ram prog_CALL)"
    using h1 [unfolded pc] a r0 sp
    by (simp add: tick_def Let_def CALL_def pushHelper_def branchTable_simps op_CALL_def pc
        js_get_upd)
  then have "RAM_read (Num 10) (ram (tick prog_CALL)) = op_RET"
    by (simp add: RAM_read_def RAM_write_def js_get_def m10)
  then have ret: "RAM_read (PC (tick prog_CALL)) (ram (tick prog_CALL)) = op_RET"
    by (simp add: pc1)
  note resume = th [THEN conjunct2, THEN conjunct2, THEN conjunct2, THEN conjunct2,
      THEN conjunct2, rule_format, of "tick prog_CALL"]
  have "PC (tick (tick prog_CALL)) = js_add (PC prog_CALL) (Num 2)"
    by (rule resume) (simp add: ret)
  then have pc2: "PC (tick (tick prog_CALL)) = Num 2"
    by (simp add: pc)
  show ?thesis
    by (intro conjI h1 h2 [symmetric] r0 pc sp1 top pc1 ret pc2)
qed

text \<open>
  Claim C2, on the processor as constructed with 5 poked at the top of the stack:
  \<open>POP\<close> stores the value read at SP into the target register, and SP, 244 before,
  is 243 afterwards, where the claim has 245.
\<close>

theorem POP_decrements_SP:
  "js_get (reg (poke (Num 244) (Num 5) boot)) SP = Num 244 \<and>
   js_get (reg (POP (Num 0) (poke (Num 244) (Num 5) boot))) (Num 0) = Num 5 \<and>
   js_get (reg (POP (Num 0) (poke (Num 244) (Num 5) boot))) SP = Num 243"
  by (simp add: POP_def popHelper_def Let_def eval_defs)

text \<open>
  Claim C1, on the processor as constructed with 5 in register 0: after \<open>PUSH\<close> and
  \<open>POP\<close> of register 0 the register holds 5 again, and SP, 244 before, is 242, where
  the claim has 244.
\<close>

theorem PUSH_POP_moves_SP:
  "js_get (reg (LDI (Num 0) (Num 5) boot)) (Num 0) = Num 5 \<and>
   js_get (reg (LDI (Num 0) (Num 5) boot)) SP = Num 244 \<and>
   js_get (reg (POP (Num 0) (PUSH (Num 0) (LDI (Num 0) (Num 5) boot)))) (Num 0) = Num 5 \<and>
   js_get (reg (POP (Num 0) (PUSH (Num 0) (LDI (Num 0) (Num 5) boot)))) SP = Num 242"
  by (simp add: POP_def PUSH_def popHelper_def pushHelper_def Let_def eval_defs)

section \<open>The branch table\<close>

text \<open>
  Claim C8 as stated, on a program whose first instruction is the opcode 179 with
  registers 0 and 1 holding 1 and 2: the entry for 179 is not the \<open>ADD\<close> handler, and
  the cycle leaves 0 (1 AND 2) in register 0, where \<open>ADD\<close> leaves 3.
\<close>

theorem ADD_entry_counterexample:
  "branchTable (Num 179) \<noteq> Some this_ADD \<and>
   RAM_read (PC prog_B3) (ram prog_B3) = Num 179 \<and>
   js_get (reg (tick prog_B3)) (Num 0) = Num 0 \<and>
   js_get (reg (ADD (Num 0) (Num 1) prog_B3)) (Num 0) = Num 3"
proof -
  have pc: "PC prog_B3 = Num 0"
    and ir: "RAM_read (Num 0) (ram prog_B3) = Num 179"
    and a: "RAM_read (Num 1) (ram prog_B3) = Num 0"
    and b: "RAM_read (Num 2) (ram prog_B3) = Num 1"
    and r0: "js_get (reg prog_B3) (Num 0) = Num 1"
    and r1: "js_get (reg prog_B3) (Num 1) = Num 2"
    by (simp_all add: prog_B3_def eval_defs)
  have "reg (tick prog_B3) = (reg prog_B3)(Num 0 \<mapsto> js_and (Num 1) (Num 2))"
    using ir a b r0 r1
    by (simp add: tick_def Let_def branchTable_simps AND_def alu_def pc)
  then have "js_get (reg (tick prog_B3)) (Num 0) = Num 0"
    by (simp add: js_get_def ev179)
  moreover have "js_get (reg (ADD (Num 0) (Num 1) prog_B3)) (Num 0) = Num 3"
    using r0 r1 by (simp add: ADD_def alu_def Let_def js_get_def)
  moreover have "branchTable (Num 179) \<noteq> Some this_ADD"
    by (simp add: branchTable_simps)
  ultimately show ?thesis
    using ir by (simp add: pc)
qed

text \<open>
  Claim C8 as amended. The entry for the opcode 179, shared by \<open>ADD\<close> and \<open>AND\<close>, is
  the \<open>AND\<close> handler, assigned last, and no opcode dispatches to the \<open>ADD\<close> handler.
\<close>

theorem AND_entry_wins:
  "op_ADD = Num 179 \<and> op_AND = Num 179 \<and>
   branchTable (Num 179) = Some this_AND \<and>
   (\<forall>opcode. branchTable opcode \<noteq> Some this_ADD)"
  by (simp add: branchTable_def opcode_defs)

end
